theory Spec2Isabelle
  imports Main "HOL-Library.Sublist"
begin

section \<open>The Teams channel picker: data model\<close>

text \<open>
  The component under study is \<^verbatim>\<open>MgtTeamsChannelPicker\<close>
  (\<^verbatim>\<open>mgt-teams-channel-picker.ts\<close>). A Graph entity (team or channel) is used by the
  component only through its \<^verbatim>\<open>id\<close> and \<^verbatim>\<open>displayName\<close>; both are taken as present.
  A JavaScript string is a list of UTF-16 code units, each a number; \<open>ustr\<close> writes
  one from a literal of ASCII characters.
\<close>

type_synonym ustring = "int list"

definition ustr :: "string \<Rightarrow> ustring" where
  "ustr s = map of_char s"

datatype Item = Item (item_id: ustring) (displayName: ustring)

text \<open>\<^verbatim>\<open>interface DropdownItem { channels?: DropdownItem[]; item: ... }\<close>: the source tree.\<close>

datatype DropdownItem = DropdownItem (item: Item) (channels: "DropdownItem list option")

text \<open>
  \<^verbatim>\<open>interface ChannelPickerItemState\<close>: a node of the tree view. The nodes are JavaScript
  objects, compared by reference (\<^verbatim>\<open>!==\<close>) and mutated in place (\<^verbatim>\<open>isExpanded\<close>), so
  each one carries the number \<open>oid\<close> it was allocated under. The back reference
  \<^verbatim>\<open>parent\<close> is only ever read as \<^verbatim>\<open>parent.item\<close>; it is kept as the parent's
  allocation number together with the parent's item, which is never reassigned.
  \<^verbatim>\<open>isExpanded\<close> is an optional flag: \<open>None\<close> is the absent property.
\<close>

datatype ParentRef = ParentRef (p_oid: nat) (p_item: Item)

datatype ChannelPickerItemState =
  ChannelPickerItemState
    (oid: nat)
    (st_item: Item)
    (isExpanded: "bool option")
    (st_channels: "ChannelPickerItemState list option")
    (parent: "ParentRef option")

text \<open>\<^verbatim>\<open>interface SelectedChannel { channel; team }\<close>\<close>

record SelectedChannel =
  channel :: Item
  team :: Item

section \<open>Strings\<close>

text \<open>
  The white space of the language (what \<^verbatim>\<open>trim\<close> removes) among the code units,
  and the strings made of nothing else.
\<close>

definition whitespace :: "int list" where
  "whitespace =
     [0x09, 0x0A, 0x0B, 0x0C, 0x0D, 0x20, 0xA0, 0x1680,
      0x2000, 0x2001, 0x2002, 0x2003, 0x2004, 0x2005, 0x2006, 0x2007, 0x2008, 0x2009, 0x200A,
      0x2028, 0x2029, 0x202F, 0x205F, 0x3000, 0xFEFF]"

definition whitespace_only :: "ustring \<Rightarrow> bool" where
  "whitespace_only f = list_all (\<lambda>c. c \<in> set whitespace) f"

text \<open>
  \<^verbatim>\<open>String.prototype.toLowerCase\<close> belongs to the language, not to the repository, and
  follows the case tables of Unicode: it lowers every cased letter, may lengthen a string
  (U+0130 becomes two code units), and looks at the neighbours of a letter (the final
  sigma). Every function below that calls it takes it as its first argument \<open>lower\<close>.
  Where a property needs to know something of it, it is stated for every function of the
  type \<open>lowering\<close>: the empty string is lowered to itself, a lowered string is lowered
  to itself, and white space is neither changed, made nor removed.
\<close>

typedef lowering =
  "{l :: ustring \<Rightarrow> ustring.
      l [] = []
      \<and> (\<forall>s. l (l s) = l s)
      \<and> (\<forall>f. whitespace_only f \<longrightarrow> l f = f)
      \<and> (\<forall>f s. whitespace_only f \<and> f \<noteq> [] \<and> sublist f (l s) \<longrightarrow> sublist f s)}"
  by (rule exI [of _ id]) simp

definition toLowerCase :: "lowering \<Rightarrow> ustring \<Rightarrow> ustring" where
  "toLowerCase L = Rep_lowering L"

text \<open>
  The instance used in the examples: \<open>lower_sample\<close> lowers, unit by unit, the capital
  letters of Basic Latin and Latin-1, and U+0130 to U+0069 U+0307; it is what
  \<^verbatim>\<open>toLowerCase\<close> does on strings of the code units below U+0100 and U+0130.
  \<open>sample\<close> is the same function as a member of \<open>lowering\<close>.
\<close>

definition lower_unit :: "int \<Rightarrow> ustring" where
  "lower_unit c =
     (if 0x41 \<le> c \<and> c \<le> 0x5A then [c + 0x20]
      else if 0xC0 \<le> c \<and> c \<le> 0xDE \<and> c \<noteq> 0xD7 then [c + 0x20]
      else if c = 0x130 then [0x69, 0x307]
      else [c])"

definition lower_sample :: "ustring \<Rightarrow> ustring" where
  "lower_sample s = concat (map lower_unit s)"

definition sample :: lowering where
  "sample = Abs_lowering lower_sample"

text \<open>
  \<^verbatim>\<open>s.indexOf(sub)\<close>: the least index at which \<open>sub\<close> starts in \<open>s\<close>, or \<open>-1\<close>.
  \<open>indexOf_from k\<close> scans the rest of the text, \<open>k\<close> code units already passed.
\<close>

fun indexOf_from :: "nat \<Rightarrow> ustring \<Rightarrow> ustring \<Rightarrow> int" where
  "indexOf_from k [] sub = (if sub = [] then int k else -1)"
| "indexOf_from k (c # cs) sub =
     (if prefix sub (c # cs) then int k else indexOf_from (Suc k) cs sub)"

definition indexOf :: "ustring \<Rightarrow> ustring \<Rightarrow> int" where
  "indexOf s sub = indexOf_from 0 s sub"

text \<open>\<^verbatim>\<open>s.includes(sub)\<close>\<close>

definition str_includes :: "ustring \<Rightarrow> ustring \<Rightarrow> bool" where
  "str_includes s sub = (indexOf s sub \<noteq> -1)"

text \<open>\<^verbatim>\<open>s.slice(a, b)\<close> for indices that are not negative.\<close>

definition slice :: "ustring \<Rightarrow> nat \<Rightarrow> nat \<Rightarrow> ustring" where
  "slice s a b = take (b - a) (drop a s)"

section \<open>Building the tree view\<close>

text \<open>
  \<^verbatim>\<open>generateTreeViewState(tree, filterString = '', parent = null)\<close>. The last argument
  and the second component of the result are the allocation counter: every object literal
  \<^verbatim>\<open>{ item: state.item, parent }\<close> takes the next number, also the one that is dropped
  when no channel of the team matches. \<open>tree_loop\<close> is the \<^verbatim>\<open>for (const state of tree)\<close>
  loop, run with the lowered filter; \<^verbatim>\<open>treeView.push\<close> keeps the order of the source.
\<close>

fun generateTreeViewState ::
    "(ustring \<Rightarrow> ustring) \<Rightarrow> DropdownItem list option \<Rightarrow> ustring \<Rightarrow> ParentRef option \<Rightarrow> nat
      \<Rightarrow> ChannelPickerItemState list \<times> nat"
  and tree_loop ::
    "(ustring \<Rightarrow> ustring) \<Rightarrow> DropdownItem list \<Rightarrow> ustring \<Rightarrow> ParentRef option \<Rightarrow> nat
      \<Rightarrow> ChannelPickerItemState list \<times> nat"
where
  "generateTreeViewState lower None filterString par n = ([], n)"
| "generateTreeViewState lower (Some tree) filterString par n =
     tree_loop lower tree (lower filterString) par n"
| "tree_loop lower [] flt par n = ([], n)"
| "tree_loop lower (DropdownItem it None # rest) flt par n =
     (if length flt = 0 \<or> str_includes (lower (displayName it)) flt
      then (let (treeView, n') = tree_loop lower rest flt par (Suc n)
            in (ChannelPickerItemState n it None None par # treeView, n'))
      else tree_loop lower rest flt par n)"
| "tree_loop lower (DropdownItem it (Some chs) # rest) flt par n =
     (if length flt = 0 \<or> str_includes (lower (displayName it)) flt
      then (let (cs, n1) =
                  generateTreeViewState lower (Some chs) [] (Some (ParentRef n it)) (Suc n);
                (treeView, n2) = tree_loop lower rest flt par n1
            in (ChannelPickerItemState n it (Some (length flt > 0)) (Some cs) par # treeView, n2))
      else (let (cs, n1) =
                  generateTreeViewState lower (Some chs) flt (Some (ParentRef n it)) (Suc n);
                (treeView, n2) = tree_loop lower rest flt par n1
            in if length cs > 0
               then (ChannelPickerItemState n it (Some True) (Some cs) par # treeView, n2)
               else (treeView, n2)))"

section \<open>Flattening the tree view\<close>

text \<open>
  \<^verbatim>\<open>generateFocusList(items)\<close>: every item, followed by the focus list of its channels
  when \<^verbatim>\<open>item.channels && item.isExpanded\<close>. An array is truthy also when empty; the
  flag is truthy only when it is present and true.
\<close>

fun generateFocusList :: "ChannelPickerItemState list \<Rightarrow> ChannelPickerItemState list" where
  "generateFocusList [] = []"
| "generateFocusList (ChannelPickerItemState i it ex None par # items) =
     ChannelPickerItemState i it ex None par # generateFocusList items"
| "generateFocusList (ChannelPickerItemState i it ex (Some cs) par # items) =
     (if ex = Some True
      then ChannelPickerItemState i it ex (Some cs) par # generateFocusList cs @ generateFocusList items
      else ChannelPickerItemState i it ex (Some cs) par # generateFocusList items)"

section \<open>Highlighting the query in a channel name\<close>

text \<open>
  \<^verbatim>\<open>renderHighlightedText(channel)\<close> fills the object \<^verbatim>\<open>channels\<close> with up to three
  properties and renders them in three spans. \<open>highlightParts\<close> is the object,
  \<open>None\<close> a property that was never assigned; the text field's value
  \<^verbatim>\<open>this._inputValue\<close> is the second argument.
\<close>

record HighlightParts =
  hl_first :: "ustring option"
  hl_highlight :: "ustring option"
  hl_last :: "ustring option"

definition highlightParts ::
    "(ustring \<Rightarrow> ustring) \<Rightarrow> Item \<Rightarrow> ustring \<Rightarrow> HighlightParts" where
  "highlightParts lower chan inputValue =
     (let name = displayName chan;
          highlightLocation = indexOf (lower name) (lower inputValue)
      in if highlightLocation \<noteq> -1
         then (if highlightLocation = 0
               then \<lparr>hl_first = Some [],
                     hl_highlight = Some (slice name 0 (length inputValue)),
                     hl_last = Some (slice name (length inputValue) (length name))\<rparr>
               else if highlightLocation = int (length name)
               then \<lparr>hl_first = Some (slice name 0 (nat highlightLocation)),
                     hl_highlight = Some (slice name (nat highlightLocation) (length name)),
                     hl_last = Some []\<rparr>
               else \<lparr>hl_first = Some (slice name 0 (nat highlightLocation)),
                     hl_highlight =
                       Some (slice name (nat highlightLocation)
                               (nat highlightLocation + length inputValue)),
                     hl_last =
                       Some (slice name (nat highlightLocation + length inputValue)
                               (length name))\<rparr>)
         else \<lparr>hl_first = None, hl_highlight = None, hl_last = Some name\<rparr>)"

text \<open>A template hole \<^verbatim>\<open>${v}\<close> in a text position shows nothing for an absent value.\<close>

definition span_text :: "ustring option \<Rightarrow> ustring" where
  "span_text v = (case v of None \<Rightarrow> [] | Some t \<Rightarrow> t)"

record Highlighted =
  before :: ustring
  matched :: ustring
  after :: ustring

definition renderHighlightedText ::
    "(ustring \<Rightarrow> ustring) \<Rightarrow> Item \<Rightarrow> ustring \<Rightarrow> Highlighted" where
  "renderHighlightedText lower chan inputValue =
     (let parts = highlightParts lower chan inputValue
      in \<lparr>before = span_text (hl_first parts),
          matched = span_text (hl_highlight parts),
          after = span_text (hl_last parts)\<rparr>)"

section \<open>The component state\<close>

text \<open>
  The private fields of the class, and what the component reads from its surroundings:
  \<open>signedIn\<close> is \<^verbatim>\<open>provider && provider.state === ProviderState.SignedIn\<close>;
  \<open>inputPresent\<close> and \<open>treeItemPresent\<close> say whether
  \<^verbatim>\<open>renderRoot.querySelector\<close> finds a \<^verbatim>\<open>fluent-text-field\<close> and a
  \<^verbatim>\<open>fluent-tree-item\<close>; \<open>domFocus\<close> is the element that last received
  \<^verbatim>\<open>focus()\<close>; \<open>selectionChanged\<close> is the list of the details of the
  \<^verbatim>\<open>selectionChanged\<close> events fired so far, oldest first; \<open>nextOid\<close> is the allocation
  counter. \<^verbatim>\<open>_selectedItemState\<close> is declared without a value, so it is
  \<^verbatim>\<open>undefined\<close> until \<^verbatim>\<open>selectChannel\<close> first writes it, and \<^verbatim>\<open>null\<close> or a node
  afterwards: \<open>Selection\<close> has the three cases, of which only a node is truthy.
  A handler that raises a TypeError yields the error
  together with the state it had reached, since the fields written before the error stay
  written; \<open>state_after\<close> reads the state from either outcome. \<^verbatim>\<open>requestUpdate\<close>,
  \<^verbatim>\<open>event.preventDefault\<close>, the photos and the debounce timer do not touch these fields
  and are left out.
\<close>

datatype DomFocus = FocusElsewhere | FocusInput | FocusTreeItem

datatype Selection = Unset | Null | Node ChannelPickerItemState

definition truthy :: "Selection \<Rightarrow> bool" where
  "truthy v = (case v of Node st \<Rightarrow> True | _ \<Rightarrow> False)"

datatype error = TypeError

record picker =
  signedIn :: bool
  items :: "DropdownItem list option"
  inputValue :: ustring
  isFocused :: bool
  selectedItemState :: Selection
  treeViewState :: "ChannelPickerItemState list"
  focusList :: "ChannelPickerItemState list"
  focusedIndex :: int
  isDropdownVisible :: bool
  nextOid :: nat
  selectionChanged :: "SelectedChannel list list"
  inputPresent :: bool
  treeItemPresent :: bool
  domFocus :: DomFocus

text \<open>
  \<^verbatim>\<open>get selectedItem()\<close>. \<open>selected_pair\<close> is the object it builds from a node;
  reading \<^verbatim>\<open>parent.item\<close> of a node whose \<^verbatim>\<open>parent\<close> is \<^verbatim>\<open>null\<close> raises a
  TypeError.
\<close>

definition selected_pair :: "ChannelPickerItemState \<Rightarrow> error + SelectedChannel" where
  "selected_pair st =
     (case parent st of
        None \<Rightarrow> Inl TypeError
      | Some p \<Rightarrow> Inr \<lparr>channel = st_item st, team = p_item p\<rparr>)"

definition selectedItem :: "picker \<Rightarrow> error + SelectedChannel option" where
  "selectedItem s =
     (case selectedItemState s of
        Node st \<Rightarrow> (case selected_pair st of Inl e \<Rightarrow> Inl e | Inr sel \<Rightarrow> Inr (Some sel))
      | _ \<Rightarrow> Inr None)"

definition resetFocusState :: "picker \<Rightarrow> picker" where
  "resetFocusState s = s\<lparr>focusList := generateFocusList (treeViewState s)\<rparr>"

definition filterList :: "(ustring \<Rightarrow> ustring) \<Rightarrow> picker \<Rightarrow> picker" where
  "filterList lower s =
     (case items s of
        None \<Rightarrow> s
      | Some its \<Rightarrow>
          (let (tv, n') =
                 generateTreeViewState lower (Some its) (inputValue s) None (nextOid s)
           in resetFocusState (s\<lparr>treeViewState := tv, nextOid := n', focusedIndex := -1\<rparr>)))"

definition state_after :: "error \<times> picker + picker \<Rightarrow> picker" where
  "state_after r = (case r of Inl (e, s) \<Rightarrow> s | Inr s \<Rightarrow> s)"

definition gainedFocus :: "picker \<Rightarrow> picker" where
  "gainedFocus s =
     (let s1 = s\<lparr>isFocused := True\<rparr>;
          s2 = (if inputPresent s1 then s1\<lparr>domFocus := FocusInput\<rparr> else s1)
      in s2\<lparr>focusedIndex := -1, isDropdownVisible := True\<rparr>)"

text \<open>
  \<^verbatim>\<open>lostFocus()\<close>. In \<^verbatim>\<open>input && !this.selectedItem\<close> the getter runs only when the
  text field is there.
\<close>

definition lostFocus :: "(ustring \<Rightarrow> ustring) \<Rightarrow> picker \<Rightarrow> error \<times> picker + picker" where
  "lostFocus lower s =
     (let s1 = s\<lparr>isFocused := False\<rparr>
      in if inputPresent s1
         then (case selectedItem s1 of
                 Inl e \<Rightarrow> Inl (e, s1)
               | Inr sel \<Rightarrow>
                   (let s2 = (if sel = None then s1\<lparr>inputValue := []\<rparr> else s1)
                    in Inr (filterList lower (s2\<lparr>isDropdownVisible := False\<rparr>))))
         else Inr (filterList lower (s1\<lparr>isDropdownVisible := False\<rparr>)))"

text \<open>
  \<^verbatim>\<open>a === b\<close> on two values of the field: \<^verbatim>\<open>undefined\<close> and \<^verbatim>\<open>null\<close> are
  equal to themselves and to nothing else, and two nodes are equal when they are the same
  object.
\<close>

fun strict_equal :: "Selection \<Rightarrow> Selection \<Rightarrow> bool" where
  "strict_equal Unset Unset = True"
| "strict_equal Null Null = True"
| "strict_equal (Node a) (Node b) = (oid a = oid b)"
| "strict_equal _ _ = False"

text \<open>
  \<^verbatim>\<open>selectChannel(item)\<close>. \<open>fire_selection\<close> is the body of the first \<^verbatim>\<open>if\<close>: the
  assignment, then the event with \<^verbatim>\<open>item ? [this.selectedItem] : []\<close>.
\<close>

definition fire_selection :: "Selection \<Rightarrow> picker \<Rightarrow> error \<times> picker + picker" where
  "fire_selection itm s =
     (let s1 = s\<lparr>selectedItemState := itm\<rparr>
      in case itm of
           Node st \<Rightarrow>
             (case selected_pair st of
                Inl e \<Rightarrow> Inl (e, s1)
              | Inr sel \<Rightarrow> Inr (s1\<lparr>selectionChanged := selectionChanged s1 @ [[sel]]\<rparr>))
         | _ \<Rightarrow> Inr (s1\<lparr>selectionChanged := selectionChanged s1 @ [[]]\<rparr>))"

definition selectChannel ::
    "(ustring \<Rightarrow> ustring) \<Rightarrow> Selection \<Rightarrow> picker \<Rightarrow> error \<times> picker + picker" where
  "selectChannel lower itm s =
     (case (if \<not> strict_equal (selectedItemState s) itm then fire_selection itm s else Inr s) of
        Inl failed \<Rightarrow> Inl failed
      | Inr s1 \<Rightarrow>
          lostFocus lower (if inputPresent s1 then s1\<lparr>inputValue := []\<rparr> else s1))"

section \<open>Keyboard handling\<close>

text \<open>
  \<^verbatim>\<open>this._focusList[this._focusedIndex]\<close>: an index outside the array reads
  \<^verbatim>\<open>undefined\<close>.
\<close>

definition item_at :: "ChannelPickerItemState list \<Rightarrow> int \<Rightarrow> ChannelPickerItemState option" where
  "item_at xs i = (if 0 \<le> i \<and> i < int (length xs) then Some (xs ! nat i) else None)"

text \<open>
  \<^verbatim>\<open>currentFocusedItem.isExpanded = !currentFocusedItem.isExpanded\<close> writes to the
  object itself, which the tree view holds too: \<open>toggle_object k\<close> rewrites the flag of
  the node allocated under \<open>k\<close> wherever it sits in a tree. \<^verbatim>\<open>!v\<close> of an absent flag is
  \<^verbatim>\<open>true\<close>.
\<close>

fun toggle_object :: "nat \<Rightarrow> ChannelPickerItemState list \<Rightarrow> ChannelPickerItemState list" where
  "toggle_object k [] = []"
| "toggle_object k (ChannelPickerItemState i it ex None par # rest) =
     ChannelPickerItemState i it (if i = k then Some (ex \<noteq> Some True) else ex) None par
       # toggle_object k rest"
| "toggle_object k (ChannelPickerItemState i it ex (Some cs) par # rest) =
     ChannelPickerItemState i it (if i = k then Some (ex \<noteq> Some True) else ex)
         (Some (toggle_object k cs)) par
       # toggle_object k rest"

text \<open>
  The body shared by Tab (with an item focused) and Enter: a focused team is toggled and
  the focus list rebuilt; a focused channel is selected.
\<close>

definition enter_focused ::
    "(ustring \<Rightarrow> ustring) \<Rightarrow> ChannelPickerItemState option \<Rightarrow> picker
      \<Rightarrow> error \<times> picker + picker" where
  "enter_focused lower cur s =
     (case cur of
        None \<Rightarrow> Inr s
      | Some c \<Rightarrow>
          (case st_channels c of
             Some _ \<Rightarrow>
               (let tv = toggle_object (oid c) (treeViewState s)
                in Inr (s\<lparr>treeViewState := tv, focusList := generateFocusList tv\<rparr>))
           | None \<Rightarrow>
               (case selectChannel lower (Node c) s of
                  Inl failed \<Rightarrow> Inl failed
                | Inr s1 \<Rightarrow> Inr ((resetFocusState s1)\<lparr>focusedIndex := -1\<rparr>))))"

text \<open>\<^verbatim>\<open>onUserKeyDown(event)\<close>, by \<^verbatim>\<open>event.keyCode\<close>.\<close>

definition onUserKeyDown ::
    "(ustring \<Rightarrow> ustring) \<Rightarrow> nat \<Rightarrow> picker \<Rightarrow> error \<times> picker + picker" where
  "onUserKeyDown lower keyCode s =
     (if length (treeViewState s) = 0 then Inr s
      else
        (let currentFocusedItem = item_at (focusList s) (focusedIndex s)
         in if keyCode = 40 then
              (if focusedIndex s = -1 \<and> \<not> treeItemPresent s then Inl (TypeError, s)
               else
                 (let s1 = (if focusedIndex s = -1 then s\<lparr>domFocus := FocusTreeItem\<rparr> else s)
                  in if focusedIndex s1 < int (length (focusList s1)) - 1
                     then Inr (s1\<lparr>focusedIndex := focusedIndex s1 + 1\<rparr>)
                     else Inr s1))
            else if keyCode = 38 then
              (if focusedIndex s = 0
               then (if inputPresent s
                     then Inr (s\<lparr>domFocus := FocusInput, focusedIndex := focusedIndex s - 1\<rparr>)
                     else Inl (TypeError, s))
               else if focusedIndex s > 0
               then Inr (s\<lparr>focusedIndex := focusedIndex s - 1\<rparr>)
               else Inr s)
            else if keyCode = 9 then
              (if currentFocusedItem = None then lostFocus lower s
               else enter_focused lower currentFocusedItem s)
            else if keyCode = 13 then enter_focused lower currentFocusedItem s
            else if keyCode = 8 then
              (if length (inputValue s) = 0 \<and> truthy (selectedItemState s)
               then selectChannel lower Null s
               else Inr s)
            else if keyCode = 27 then
              (case selectChannel lower (selectedItemState s) s of
                 Inl failed \<Rightarrow> Inl failed
               | Inr s1 \<Rightarrow> Inr (resetFocusState (s1\<lparr>focusedIndex := -1\<rparr>)))
            else Inr s))"

section \<open>Loading and selecting by id\<close>

text \<open>
  What the Graph returns for one team: the team, its \<^verbatim>\<open>isArchived\<close> flag, and
  \<^verbatim>\<open>response.content.value\<close> of the batched channel request, \<open>None\<close> when the
  response, its content or the value is missing.
\<close>

record TeamData =
  td_team :: Item
  td_isArchived :: bool
  td_channels :: "Item list option"

text \<open>
  \<^verbatim>\<open>set items(value)\<close>, for a value that is not the array already held (\<^verbatim>\<open>loadState\<close>
  always passes a new array).
\<close>

definition set_items ::
    "(ustring \<Rightarrow> ustring) \<Rightarrow> DropdownItem list option \<Rightarrow> picker \<Rightarrow> picker" where
  "set_items lower v s =
     (let (tv, n') = (case v of
                        None \<Rightarrow> ([], nextOid s)
                      | Some its \<Rightarrow>
                          generateTreeViewState lower (Some its) [] None (nextOid s))
      in resetFocusState (s\<lparr>items := v, treeViewState := tv, nextOid := n'\<rparr>))"

text \<open>
  \<^verbatim>\<open>loadState()\<close>. \<open>granted\<close> is the answer of \<^verbatim>\<open>getAccessTokenForScopes\<close>. A team
  whose response has no content keeps \<^verbatim>\<open>channels\<close> undefined.
\<close>

definition team_item :: "TeamData \<Rightarrow> DropdownItem" where
  "team_item t =
     DropdownItem (td_team t) (map_option (map (\<lambda>c. DropdownItem c None)) (td_channels t))"

definition loadState ::
    "(ustring \<Rightarrow> ustring) \<Rightarrow> bool \<Rightarrow> TeamData list \<Rightarrow> picker \<Rightarrow> picker" where
  "loadState lower granted fetched s =
     (if signedIn s
      then (if \<not> granted then s
            else (let teams = filter (\<lambda>t. \<not> td_isArchived t) fetched;
                      s1 = set_items lower (Some (map team_item teams)) s
                  in resetFocusState (filterList lower s1)))
      else resetFocusState (filterList lower s))"

text \<open>
  Modelled from the spec: \<^verbatim>\<open>requestStateUpdate\<close> belongs to the base class
  \<^verbatim>\<open>MgtTemplatedComponent\<close> of the package \<^verbatim>\<open>mgt-element\<close>; awaiting it "forces a
  load", that is, runs \<^verbatim>\<open>loadState\<close> to its end.
\<close>

definition requestStateUpdate ::
    "(ustring \<Rightarrow> ustring) \<Rightarrow> bool \<Rightarrow> TeamData list \<Rightarrow> picker \<Rightarrow> picker" where
  "requestStateUpdate lower granted fetched s = loadState lower granted fetched s"

text \<open>
  The two nested loops of \<^verbatim>\<open>selectChannelById\<close>: \<open>channel_loop\<close> is
  \<^verbatim>\<open>for (const channel of item.channels)\<close>, \<open>item_loop\<close> is
  \<^verbatim>\<open>for (const item of this._treeViewState)\<close>; the result is the channel at which the
  loops are left, if any. Iterating \<^verbatim>\<open>item.channels\<close> when it is undefined raises a
  TypeError.
\<close>

fun channel_loop :: "ustring \<Rightarrow> ChannelPickerItemState list \<Rightarrow> ChannelPickerItemState option" where
  "channel_loop channelId [] = None"
| "channel_loop channelId (c # cs) =
     (if item_id (st_item c) = channelId then Some c else channel_loop channelId cs)"

fun item_loop ::
    "ustring \<Rightarrow> ChannelPickerItemState list \<Rightarrow> error + ChannelPickerItemState option" where
  "item_loop channelId [] = Inr None"
| "item_loop channelId (t # ts) =
     (case st_channels t of
        None \<Rightarrow> Inl TypeError
      | Some cs \<Rightarrow>
          (case channel_loop channelId cs of
             Some c \<Rightarrow> Inr (Some c)
           | None \<Rightarrow> item_loop channelId ts))"

text \<open>
  \<^verbatim>\<open>selectChannelById(channelId)\<close>; \<open>granted\<close> and \<open>fetched\<close> are what a forced
  load would receive.
\<close>

definition selectChannelById ::
    "(ustring \<Rightarrow> ustring) \<Rightarrow> ustring \<Rightarrow> bool \<Rightarrow> TeamData list \<Rightarrow> picker
      \<Rightarrow> error \<times> picker + bool \<times> picker" where
  "selectChannelById lower channelId granted fetched s =
     (if signedIn s
      then (let s1 = (if items s = None
                      then requestStateUpdate lower granted fetched s else s)
            in case item_loop channelId (treeViewState s1) of
                 Inl e \<Rightarrow> Inl (e, s1)
               | Inr None \<Rightarrow> Inr (False, s1)
               | Inr (Some c) \<Rightarrow>
                   (case selectChannel lower (Node c) s1 of
                      Inl failed \<Rightarrow> Inl failed
                    | Inr s2 \<Rightarrow> Inr (True, s2)))
      else Inr (False, s))"

section \<open>Notions used to state the properties\<close>

text \<open>
  A name contains a filter as a substring, letter case ignored, when the lowered filter
  is a run of consecutive code units of the lowered name.
\<close>

definition contains_ci :: "(ustring \<Rightarrow> ustring) \<Rightarrow> ustring \<Rightarrow> ustring \<Rightarrow> bool" where
  "contains_ci lower f name = sublist (lower f) (lower name)"

text \<open>
  The nodes of a tree view in pre-order (a node, then the nodes below it, then the nodes
  after it), each with the chain of its ancestors, nearest first.
\<close>

fun preorder ::
    "ChannelPickerItemState list \<Rightarrow> ChannelPickerItemState list
      \<Rightarrow> (ChannelPickerItemState list \<times> ChannelPickerItemState) list" where
  "preorder anc [] = []"
| "preorder anc (ChannelPickerItemState i it ex None par # rest) =
     (anc, ChannelPickerItemState i it ex None par) # preorder anc rest"
| "preorder anc (ChannelPickerItemState i it ex (Some cs) par # rest) =
     (anc, ChannelPickerItemState i it ex (Some cs) par)
       # preorder (ChannelPickerItemState i it ex (Some cs) par # anc) cs
       @ preorder anc rest"

text \<open>A node counts as expanded when its flag is present and true.\<close>

definition expanded :: "ChannelPickerItemState \<Rightarrow> bool" where
  "expanded a = (isExpanded a = Some True)"

definition all_expanded :: "ChannelPickerItemState list \<Rightarrow> bool" where
  "all_expanded anc = (\<forall>a \<in> set anc. expanded a)"

text \<open>
  The source tree a tree view stands for: the items and the channel lists, without flags,
  back references and allocation numbers.
\<close>

fun source_of :: "ChannelPickerItemState \<Rightarrow> DropdownItem" where
  "source_of (ChannelPickerItemState i it ex chs par) =
     DropdownItem it (map_option (map source_of) chs)"

text \<open>No node of the tree view, at any depth, has a flag that is present and true.\<close>

fun none_expanded :: "ChannelPickerItemState list \<Rightarrow> bool" where
  "none_expanded [] = True"
| "none_expanded (ChannelPickerItemState i it ex None par # rest) =
     (ex \<noteq> Some True \<and> none_expanded rest)"
| "none_expanded (ChannelPickerItemState i it ex (Some cs) par # rest) =
     (ex \<noteq> Some True \<and> none_expanded cs \<and> none_expanded rest)"

text \<open>
  Every node of the list refers back to \<open>p\<close>, and every node below a node refers back
  to that node.
\<close>

fun parents_linked :: "ParentRef option \<Rightarrow> ChannelPickerItemState list \<Rightarrow> bool" where
  "parents_linked p [] = True"
| "parents_linked p (ChannelPickerItemState i it ex None par # rest) =
     (par = p \<and> parents_linked p rest)"
| "parents_linked p (ChannelPickerItemState i it ex (Some cs) par # rest) =
     (par = p \<and> parents_linked (Some (ParentRef i it)) cs \<and> parents_linked p rest)"



text \<open>
  The allocation numbers in a tree view, and what it means for a built tree view to be
  fresh from \<open>n\<close> on: its numbers are pairwise different and lie between \<open>n\<close> and the
  counter it returns, so that two nodes are the same object exactly when their numbers
  agree.
\<close>

fun all_oids :: "ChannelPickerItemState list \<Rightarrow> nat list" where
  "all_oids [] = []"
| "all_oids (ChannelPickerItemState i it ex None par # rest) = i # all_oids rest"
| "all_oids (ChannelPickerItemState i it ex (Some cs) par # rest) =
     i # all_oids cs @ all_oids rest"

definition fresh_from :: "nat \<Rightarrow> ChannelPickerItemState list \<times> nat \<Rightarrow> bool" where
  "fresh_from n r =
     (n \<le> snd r \<and> distinct (all_oids (fst r))
      \<and> (\<forall>i \<in> set (all_oids (fst r)). n \<le> i \<and> i < snd r))"

text \<open>The example of the specification: one team with two channels.\<close>

definition engineering :: "DropdownItem list" where
  "engineering =
     [DropdownItem (Item (ustr ''T1'') (ustr ''Engineering''))
        (Some [DropdownItem (Item (ustr ''C1'') (ustr ''General'')) None,
               DropdownItem (Item (ustr ''C2'') (ustr ''Backend'')) None])]"

definition engineering_fetched :: "TeamData list" where
  "engineering_fetched =
     [\<lparr>td_team = Item (ustr ''T1'') (ustr ''Engineering''), td_isArchived = False,
       td_channels = Some [Item (ustr ''C1'') (ustr ''General''), Item (ustr ''C2'') (ustr ''Backend'')]\<rparr>]"

text \<open>A team whose channel request came back without content.\<close>

definition marketing_fetched :: "TeamData list" where
  "marketing_fetched =
     [\<lparr>td_team = Item (ustr ''T2'') (ustr ''Marketing''), td_isArchived = False, td_channels = None\<rparr>]"

text \<open>
  The component as constructed, for a signed-in user, with its template rendered;
  \<open>loaded\<close> is the component after it has loaded the example.
\<close>

definition initial :: picker where
  "initial =
     \<lparr>signedIn = True, items = None, inputValue = [], isFocused = False,
      selectedItemState = Unset, treeViewState = [], focusList = [], focusedIndex = -1,
      isDropdownVisible = False, nextOid = 0, selectionChanged = [],
      inputPresent = True, treeItemPresent = True, domFocus = FocusElsewhere\<rparr>"

definition loaded :: picker where
  "loaded = loadState lower_sample True engineering_fetched initial"

text \<open>
  The state reached when, with nothing selected, the text field has received the text
  \<open>t\<close> (\<^verbatim>\<open>handleInputChanged\<close> stores it and calls \<^verbatim>\<open>gainedFocus\<close>) and the
  debounced \<^verbatim>\<open>filterList\<close> has run.
\<close>

definition typed :: "string \<Rightarrow> picker \<Rightarrow> picker" where
  "typed t s = filterList lower_sample ((gainedFocus s)\<lparr>inputValue := ustr t\<rparr>)"

text \<open>
  The current selection, if there is one, is a channel of a team: its back reference is
  set, so that \<^verbatim>\<open>get selectedItem()\<close> can read the team.
\<close>

definition has_team :: "Selection \<Rightarrow> bool" where
  "has_team sel = (case sel of Node c \<Rightarrow> parent c \<noteq> None | _ \<Rightarrow> True)"

text \<open>
  What holds of a top-level node kept under a filter \<open>f\<close> that is matched as it stands:
  a node without a channels list has no flag and a name in which \<open>f\<close> occurs; a node
  with a channels list is expanded, and \<open>f\<close> occurs in its name or at least one of its
  channels was kept.
\<close>

definition kept_literally :: "ustring \<Rightarrow> ChannelPickerItemState \<Rightarrow> bool" where
  "kept_literally f n =
     (case st_channels n of
        None \<Rightarrow> isExpanded n = None \<and> sublist f (displayName (st_item n))
      | Some cs \<Rightarrow> isExpanded n = Some True \<and> (sublist f (displayName (st_item n)) \<or> cs \<noteq> []))"

text \<open>Two teams, one with a blank in its name.\<close>

definition site_ops :: "DropdownItem list" where
  "site_ops =
     [DropdownItem (Item (ustr ''T3'') (ustr ''Site Ops'')) (Some [DropdownItem (Item (ustr ''C3'') (ustr ''General'')) None]),
      DropdownItem (Item (ustr ''T1'') (ustr ''Engineering'')) (Some [DropdownItem (Item (ustr ''C1'') (ustr ''General'')) None])]"

text \<open>
  The loaded component after \<^verbatim>\<open>selectChannelById\<close> has selected the channel \<open>C2\<close>
  of the example, the same after a click on the text field, and the node of the channel
  \<open>C1\<close> in the tree view of that state.
\<close>

definition backend_selected :: picker where
  "backend_selected =
     (case selectChannelById lower_sample (ustr ''C2'') True engineering_fetched loaded of
        Inr (found, s) \<Rightarrow> s
      | Inl failed \<Rightarrow> loaded)"

definition backend_selected_open :: picker where
  "backend_selected_open = gainedFocus backend_selected"

definition general_node :: ChannelPickerItemState where
  "general_node =
     ChannelPickerItemState 7 (Item (ustr ''C1'') (ustr ''General'')) None None
       (Some (ParentRef 6 (Item (ustr ''T1'') (ustr ''Engineering''))))"

text \<open>
  A team of cities, one of them written with the capital dotted I (U+0130), and a school
  with accented capitals.
\<close>

definition istanbul :: ustring where
  "istanbul = 0x130 # ustr ''stanbul''"


definition school :: "DropdownItem list" where
  "school =
     [DropdownItem (Item (ustr ''T5'') (0xC9 # ustr ''COLE''))
        (Some [DropdownItem (Item (ustr ''C6'') (ustr ''CAF'' @ [0xC9])) None])]"

section \<open>What is known of lowering\<close>

lemma toLowerCase_Nil: "toLowerCase L [] = []"
  using Rep_lowering [of L] by (simp add: toLowerCase_def)


lemma toLowerCase_whitespace: "whitespace_only f \<Longrightarrow> toLowerCase L f = f"
  using Rep_lowering [of L] by (simp add: toLowerCase_def)

lemma toLowerCase_whitespace_sublist:
  "whitespace_only f \<Longrightarrow> f \<noteq> [] \<Longrightarrow> sublist f (toLowerCase L s) \<Longrightarrow> sublist f s"
  using Rep_lowering [of L] unfolding toLowerCase_def by blast

lemma lower_unit_whitespace: "c \<in> set whitespace \<Longrightarrow> lower_unit c = [c]"
  by (auto simp: whitespace_def lower_unit_def)

lemma lower_unit_other: "c \<notin> set whitespace \<Longrightarrow> u \<in> set (lower_unit c) \<Longrightarrow> u \<notin> set whitespace"
  by (auto simp: whitespace_def lower_unit_def split: if_splits)

lemma lower_unit_nonempty: "lower_unit c \<noteq> []"
  by (simp add: lower_unit_def)

lemma lower_unit_fixed: "u \<in> set (lower_unit c) \<Longrightarrow> lower_unit u = [u]"
  by (auto simp: lower_unit_def split: if_splits)

lemma lower_sample_Nil: "lower_sample [] = []"
  by (simp add: lower_sample_def)

lemma lower_sample_Cons: "lower_sample (c # s) = lower_unit c @ lower_sample s"
  by (simp add: lower_sample_def)

lemma lower_sample_append: "lower_sample (a @ b) = lower_sample a @ lower_sample b"
  by (simp add: lower_sample_def)

lemma lower_sample_fixed: "\<forall>u \<in> set xs. lower_unit u = [u] \<Longrightarrow> lower_sample xs = xs"
  by (induction xs) (simp_all add: lower_sample_Nil lower_sample_Cons)

lemma lower_sample_idem: "lower_sample (lower_sample s) = lower_sample s"
proof (induction s)
  case Nil
  then show ?case by (simp add: lower_sample_Nil)
next
  case (Cons c s)
  have "lower_sample (lower_unit c) = lower_unit c"
    by (rule lower_sample_fixed) (simp add: lower_unit_fixed)
  with Cons show ?case by (simp add: lower_sample_Cons lower_sample_append)
qed

lemma lower_sample_whitespace: "whitespace_only f \<Longrightarrow> lower_sample f = f"
  by (rule lower_sample_fixed) (simp add: whitespace_only_def list_all_iff lower_unit_whitespace)

lemma whitespace_prefix_lowered:
  "whitespace_only f \<Longrightarrow> prefix f (lower_sample s) \<Longrightarrow> prefix f s"
proof (induction f arbitrary: s)
  case Nil
  then show ?case by simp
next
  case (Cons w f)
  from Cons.prems(1) have w: "w \<in> set whitespace" and f: "whitespace_only f"
    by (simp_all add: whitespace_only_def)
  from Cons.prems(2) obtain c cs where s: "s = c # cs"
    by (cases s) (simp_all add: lower_sample_Nil)
  from Cons.prems(2) s have p: "prefix (w # f) (lower_unit c @ lower_sample cs)"
    by (simp add: lower_sample_Cons)
  from lower_unit_nonempty [of c] obtain u us where u: "lower_unit c = u # us"
    by (cases "lower_unit c") simp_all
  with p have "u = w" by simp
  with u w have cw: "c \<in> set whitespace"
    using lower_unit_other [of c u] by auto
  then have uc: "lower_unit c = [c]" by (rule lower_unit_whitespace)
  with p have "c = w" and "prefix f (lower_sample cs)" by simp_all
  with Cons.IH [OF f] s show ?case by simp
qed

lemma whitespace_sublist_lowered:
  assumes "whitespace_only f" and "f \<noteq> []"
  shows "sublist f (lower_sample s) \<Longrightarrow> sublist f s"
proof (induction s)
  case Nil
  with assms(2) show ?case by (simp add: lower_sample_Nil)
next
  case (Cons c cs)
  from Cons.prems have "sublist f (lower_unit c @ lower_sample cs)"
    by (simp add: lower_sample_Cons)
  then consider (left) "sublist f (lower_unit c)" | (right) "sublist f (lower_sample cs)"
    | (across) f1 f2 where "f = f1 @ f2" "suffix f1 (lower_unit c)" "prefix f2 (lower_sample cs)"
    unfolding sublist_append by blast
  then show ?case
  proof cases
    case left
    show ?thesis
    proof (cases "c \<in> set whitespace")
      case True
      with left have "sublist f [c]" by (simp add: lower_unit_whitespace)
      with assms(2) have "prefix f [c]" by (auto simp: sublist_Cons_right)
      moreover have "prefix [c] (c # cs)" by simp
      ultimately have "prefix f (c # cs)" by (rule prefix_order.trans)
      then show ?thesis by (simp add: sublist_Cons_right)
    next
      case False
      from assms(2) obtain w where w: "w \<in> set f" by (cases f) auto
      with left have "w \<in> set (lower_unit c)" using set_mono_sublist by blast
      with False have "w \<notin> set whitespace" using lower_unit_other by blast
      with w assms(1) show ?thesis by (simp add: whitespace_only_def list_all_iff)
    qed
  next
    case right
    then have "sublist f cs" by (rule Cons.IH)
    then show ?thesis by (simp add: sublist_Cons_right)
  next
    case across
    show ?thesis
    proof (cases "c \<in> set whitespace")
      case True
      from across(1) assms(1) have "whitespace_only f2" by (simp add: whitespace_only_def)
      from whitespace_prefix_lowered [OF this across(3)] have p2: "prefix f2 cs" .
      from True across(2) have "suffix f1 [c]" by (simp add: lower_unit_whitespace)
      then have "f1 = [] \<or> f1 = [c]" by (auto simp: suffix_def Cons_eq_append_conv)
      with p2 across(1) have "prefix f (c # cs) \<or> prefix f cs" by auto
      then show ?thesis by (auto simp: sublist_Cons_right)
    next
      case False
      have "f1 = []"
      proof (rule ccontr)
        assume "f1 \<noteq> []"
        then obtain w where w: "w \<in> set f1" by (cases f1) auto
        with across(2) have "w \<in> set (lower_unit c)" using set_mono_suffix by blast
        with False have "w \<notin> set whitespace" using lower_unit_other by blast
        with w across(1) assms(1) show False by (simp add: whitespace_only_def list_all_iff)
      qed
      with across(1,3) have "prefix f (lower_sample cs)" by simp
      then have "sublist f (lower_sample cs)" by (rule prefix_imp_sublist)
      then have "sublist f cs" by (rule Cons.IH)
      then show ?thesis by (simp add: sublist_Cons_right)
    qed
  qed
qed

lemma lower_sample_lowering:
  "lower_sample \<in> {l. l [] = []
      \<and> (\<forall>s. l (l s) = l s)
      \<and> (\<forall>f. whitespace_only f \<longrightarrow> l f = f)
      \<and> (\<forall>f s. whitespace_only f \<and> f \<noteq> [] \<and> sublist f (l s) \<longrightarrow> sublist f s)}"
  using lower_sample_Nil lower_sample_idem lower_sample_whitespace whitespace_sublist_lowered
  by blast

lemma toLowerCase_sample: "toLowerCase sample = lower_sample"
  unfolding toLowerCase_def sample_def
  by (rule Abs_lowering_inverse) (rule lower_sample_lowering)


section \<open>Searching a string\<close>

lemma indexOf_from_cases:
  "(indexOf_from k s sub = -1 \<and> (\<forall>i \<le> length s. \<not> prefix sub (drop i s)))
   \<or> (\<exists>i \<le> length s. indexOf_from k s sub = int (k + i) \<and> prefix sub (drop i s)
         \<and> (\<forall>j<i. \<not> prefix sub (drop j s)))"
proof (induction s arbitrary: k)
  case Nil
  then show ?case by auto
next
  case (Cons c cs)
  show ?case
  proof (cases "prefix sub (c # cs)")
    case True
    then show ?thesis by auto
  next
    case False
    from Cons.IH [of "Suc k"] show ?thesis
    proof
      assume a: "indexOf_from (Suc k) cs sub = -1 \<and> (\<forall>i \<le> length cs. \<not> prefix sub (drop i cs))"
      have "\<forall>i \<le> length (c # cs). \<not> prefix sub (drop i (c # cs))"
      proof (intro allI impI)
        fix i assume "i \<le> length (c # cs)"
        then show "\<not> prefix sub (drop i (c # cs))"
          using a False by (cases i) auto
      qed
      with a False show ?thesis by simp
    next
      assume "\<exists>i \<le> length cs. indexOf_from (Suc k) cs sub = int (Suc k + i) \<and> prefix sub (drop i cs)
         \<and> (\<forall>j<i. \<not> prefix sub (drop j cs))"
      then obtain i where i: "i \<le> length cs" "indexOf_from (Suc k) cs sub = int (Suc k + i)"
        "prefix sub (drop i cs)" "\<forall>j<i. \<not> prefix sub (drop j cs)" by blast
      have "\<forall>j<Suc i. \<not> prefix sub (drop j (c # cs))"
      proof (intro allI impI)
        fix j assume "j < Suc i"
        then show "\<not> prefix sub (drop j (c # cs))"
          using i(4) False by (cases j) auto
      qed
      with i False have "Suc i \<le> length (c # cs) \<and> indexOf_from k (c # cs) sub = int (k + Suc i)
          \<and> prefix sub (drop (Suc i) (c # cs)) \<and> (\<forall>j<Suc i. \<not> prefix sub (drop j (c # cs)))"
        by simp
      then show ?thesis by blast
    qed
  qed
qed

lemma str_includes_sublist: "str_includes s sub \<longleftrightarrow> sublist sub s"
proof -
  from indexOf_from_cases [of 0 s sub] show ?thesis
  proof
    assume a: "indexOf_from 0 s sub = -1 \<and> (\<forall>i \<le> length s. \<not> prefix sub (drop i s))"
    have "\<not> sublist sub s"
    proof
      assume "sublist sub s"
      then obtain ps ss where s: "s = ps @ sub @ ss" unfolding sublist_def by blast
      then have "prefix sub (drop (length ps) s)" and "length ps \<le> length s" by simp_all
      with a show False by blast
    qed
    with a show ?thesis by (simp add: str_includes_def indexOf_def)
  next
    assume "\<exists>i \<le> length s. indexOf_from 0 s sub = int (0 + i) \<and> prefix sub (drop i s)
         \<and> (\<forall>j<i. \<not> prefix sub (drop j s))"
    then obtain i where i: "indexOf_from 0 s sub = int i" "prefix sub (drop i s)" by auto
    from i(2) obtain zs where "drop i s = sub @ zs" unfolding prefix_def by blast
    then have "s = take i s @ sub @ zs" by (metis append_take_drop_id)
    then have "sublist sub s" unfolding sublist_def by blast
    with i(1) show ?thesis by (simp add: str_includes_def indexOf_def)
  qed
qed

section \<open>The highlighted parts of a channel name\<close>

text \<open>
  Claim C7 says that the highlighted part starts at the first occurrence of the typed
  text in the name, letter case ignored, and is taken from the name itself. The code
  looks for the lowered text in the lowered name and cuts the name at the index it finds
  there. For the name \<open>U+0130 stanbul\<close> and the text \<open>stan\<close>: lowering makes the name
  one code unit longer, the lowered text is found at index 2 of the lowered name, and the
  name is cut at index 2, where it reads \<open>tanb\<close>; the text \<open>stan\<close> stands at index 1 of
  the name.
\<close>

theorem highlight_shifted_by_lowering:
  "lower_sample istanbul = [0x69, 0x307] @ ustr ''stanbul''
   \<and> lower_sample (ustr ''stan'') = ustr ''stan''
   \<and> indexOf (lower_sample istanbul) (lower_sample (ustr ''stan'')) = 2
   \<and> slice istanbul 1 5 = ustr ''stan''
   \<and> renderHighlightedText lower_sample (Item (ustr ''C4'') istanbul) (ustr ''stan'')
       = \<lparr>before = [0x130] @ ustr ''s'', matched = ustr ''tanb'', after = ustr ''ul''\<rparr>"
  by code_simp

section \<open>The focus list\<close>

lemma preorder_collapsed:
  "\<not> all_expanded anc \<Longrightarrow> filter (\<lambda>(a, n). all_expanded a) (preorder anc ts) = []"
proof (induction anc ts rule: preorder.induct)
  case (1 anc)
  then show ?case by simp
next
  case (2 anc i it ex par rest)
  then show ?case by simp
next
  case (3 anc i it ex cs par rest)
  then show ?case by (simp add: all_expanded_def)
qed

lemma focus_list_preorder_gen:
  "all_expanded anc \<Longrightarrow>
     generateFocusList ts = map snd (filter (\<lambda>(a, n). all_expanded a) (preorder anc ts))"
proof (induction anc ts rule: preorder.induct)
  case (1 anc)
  then show ?case by simp
next
  case (2 anc i it ex par rest)
  then show ?case by simp
next
  case (3 anc i it ex cs par rest)
  let ?t = "ChannelPickerItemState i it ex (Some cs) par"
  show ?case
  proof (cases "ex = Some True")
    case True
    then have "all_expanded (?t # anc)"
      using "3.prems" by (simp add: all_expanded_def expanded_def)
    with 3 True show ?thesis by simp
  next
    case False
    then have "\<not> all_expanded (?t # anc)"
      by (simp add: all_expanded_def expanded_def)
    then have "filter (\<lambda>(a, n). all_expanded a) (preorder (?t # anc) cs) = []"
      by (rule preorder_collapsed)
    with 3 False show ?thesis by simp
  qed
qed

text \<open>
  Claim C8. For every tree view, the focus list is the pre-order traversal of the tree
  (each node before the nodes below it, in the order of the tree) restricted to the nodes
  all of whose ancestors are expanded: the channels of a node are there exactly when the
  node and all nodes above it are expanded, and no node with a collapsed ancestor is
  ever in the list.
\<close>

theorem focus_list_is_visible_preorder:
  "generateFocusList ts = map snd (filter (\<lambda>(anc, n). all_expanded anc) (preorder [] ts))"
  by (rule focus_list_preorder_gen) (simp add: all_expanded_def)

theorem focus_list_is_visible_preorder_witness:
  "all_expanded [ChannelPickerItemState 0 (Item (ustr ''T1'') (ustr ''Engineering'')) (Some True)
       (Some [ChannelPickerItemState 1 (Item (ustr ''C2'') (ustr ''Backend'')) None None
                (Some (ParentRef 0 (Item (ustr ''T1'') (ustr ''Engineering''))))]) None]
   \<and> map snd (filter (\<lambda>(anc, n). all_expanded anc)
        (preorder [] (fst (generateTreeViewState lower_sample (Some engineering) (ustr ''back'') None 0))))
      = [ChannelPickerItemState 0 (Item (ustr ''T1'') (ustr ''Engineering'')) (Some True)
           (Some [ChannelPickerItemState 1 (Item (ustr ''C2'') (ustr ''Backend'')) None None
                    (Some (ParentRef 0 (Item (ustr ''T1'') (ustr ''Engineering''))))]) None,
         ChannelPickerItemState 1 (Item (ustr ''C2'') (ustr ''Backend'')) None None
           (Some (ParentRef 0 (Item (ustr ''T1'') (ustr ''Engineering''))))]"
proof -
  have "generateFocusList (fst (generateTreeViewState lower_sample (Some engineering) (ustr ''back'') None 0))
      = [ChannelPickerItemState 0 (Item (ustr ''T1'') (ustr ''Engineering'')) (Some True)
           (Some [ChannelPickerItemState 1 (Item (ustr ''C2'') (ustr ''Backend'')) None None
                    (Some (ParentRef 0 (Item (ustr ''T1'') (ustr ''Engineering''))))]) None,
         ChannelPickerItemState 1 (Item (ustr ''C2'') (ustr ''Backend'')) None None
           (Some (ParentRef 0 (Item (ustr ''T1'') (ustr ''Engineering''))))]"
    by code_simp
  moreover have "all_expanded [ChannelPickerItemState 0 (Item (ustr ''T1'') (ustr ''Engineering'')) (Some True)
       (Some [ChannelPickerItemState 1 (Item (ustr ''C2'') (ustr ''Backend'')) None None
                (Some (ParentRef 0 (Item (ustr ''T1'') (ustr ''Engineering''))))]) None]"
    by code_simp
  ultimately show ?thesis
    using focus_list_is_visible_preorder
      [of "fst (generateTreeViewState lower_sample (Some engineering) (ustr ''back'') None 0)"]
    by simp
qed

section \<open>Building without a filter\<close>

lemma unfiltered_gen:
  "lower [] = [] \<longrightarrow> fs = [] \<longrightarrow>
     map source_of (fst (generateTreeViewState lower tree fs par n))
       = (case tree of None \<Rightarrow> [] | Some T \<Rightarrow> T)
     \<and> none_expanded (fst (generateTreeViewState lower tree fs par n))
     \<and> parents_linked par (fst (generateTreeViewState lower tree fs par n))"
  and unfiltered_loop:
  "lower [] = [] \<longrightarrow> flt = [] \<longrightarrow>
     map source_of (fst (tree_loop lower ts flt par n)) = ts
     \<and> none_expanded (fst (tree_loop lower ts flt par n))
     \<and> parents_linked par (fst (tree_loop lower ts flt par n))"
proof (induction lower tree fs par n and lower ts flt par n
    rule: generateTreeViewState_tree_loop.induct)
  case (1 lower filterString par n)
  then show ?case by simp
next
  case (2 lower tree filterString par n)
  then show ?case by simp
next
  case (3 lower flt par n)
  then show ?case by simp
next
  case (4 lower it rest flt par n)
  then show ?case by (simp add: split_beta)
next
  case (5 lower it chs rest flt par n)
  note ih_channels = "5.IH"(1)
  note ih_rest = "5.IH"(2) [OF _ refl prod.collapse]
  show ?case using ih_channels ih_rest by (simp add: split_beta)
qed

text \<open>
  Claim C5. For every source tree \<open>T\<close>, the tree view built with the empty filter stands
  for \<open>T\<close> itself: the same items in the same order with the same channel lists at every
  depth; every node refers back to the node it is a channel of (top-level nodes to
  nothing); and no node has an expanded flag that is true (the flag is false on nodes
  with a channels list and absent on the others).
\<close>

theorem empty_filter_isomorphic:
  "map source_of (fst (generateTreeViewState (toLowerCase L) (Some T) [] None n)) = T
   \<and> none_expanded (fst (generateTreeViewState (toLowerCase L) (Some T) [] None n))
   \<and> parents_linked None (fst (generateTreeViewState (toLowerCase L) (Some T) [] None n))"
  using unfiltered_gen [of "toLowerCase L" "[]" "Some T" None n]
  by (simp add: toLowerCase_Nil)

theorem empty_filter_isomorphic_witness:
  "map source_of (fst (generateTreeViewState lower_sample (Some engineering) [] None 0))
     = engineering
   \<and> none_expanded (fst (generateTreeViewState lower_sample (Some engineering) [] None 0))
   \<and> parents_linked None (fst (generateTreeViewState lower_sample (Some engineering) [] None 0))"
  using empty_filter_isomorphic [of sample engineering 0]
  by (simp add: toLowerCase_sample)

section \<open>Building with a filter\<close>


lemma loop_condition_contains:
  assumes "lower flt = flt"
  shows "(length flt = 0 \<or> str_includes (lower (displayName it)) flt)
           \<longleftrightarrow> contains_ci lower flt (displayName it)"
  using assms by (auto simp: contains_ci_def str_includes_sublist)






section \<open>Allocation numbers are fresh\<close>

lemma fresh_weaken: "fresh_from (Suc n) r \<Longrightarrow> fresh_from n r"
  by (force simp: fresh_from_def)

lemma fresh_leaf:
  assumes "fresh_from (Suc n) r"
  shows "fresh_from n (ChannelPickerItemState n it ex None par # fst r, snd r)"
proof -
  from assms have b: "\<forall>i \<in> set (all_oids (fst r)). Suc n \<le> i \<and> i < snd r"
    and d: "distinct (all_oids (fst r))" and l: "Suc n \<le> snd r"
    by (simp_all add: fresh_from_def)
  from b have "n \<notin> set (all_oids (fst r))" by force
  moreover from b have "\<forall>i \<in> set (all_oids (fst r)). n \<le> i \<and> i < snd r" by force
  ultimately show ?thesis using d l by (simp add: fresh_from_def)
qed

lemma fresh_team:
  assumes "fresh_from (Suc n) g" and "fresh_from (snd g) r"
  shows "fresh_from n (ChannelPickerItemState n it ex (Some (fst g)) par # fst r, snd r)"
proof -
  from assms(1) have b1: "\<forall>i \<in> set (all_oids (fst g)). Suc n \<le> i \<and> i < snd g"
    and d1: "distinct (all_oids (fst g))" and l1: "Suc n \<le> snd g"
    by (simp_all add: fresh_from_def)
  from assms(2) have b2: "\<forall>i \<in> set (all_oids (fst r)). snd g \<le> i \<and> i < snd r"
    and d2: "distinct (all_oids (fst r))" and l2: "snd g \<le> snd r"
    by (simp_all add: fresh_from_def)
  from b1 b2 have disj: "set (all_oids (fst g)) \<inter> set (all_oids (fst r)) = {}" by force
  from b1 have n1: "n \<notin> set (all_oids (fst g))" by force
  from b2 l1 have n2: "n \<notin> set (all_oids (fst r))" by force
  from b1 l2 have r1: "\<forall>i \<in> set (all_oids (fst g)). n \<le> i \<and> i < snd r" by force
  from b2 l1 have r2: "\<forall>i \<in> set (all_oids (fst r)). n \<le> i \<and> i < snd r" by force
  from l1 l2 have "n < snd r" by simp
  with disj n1 n2 r1 r2 d1 d2 show ?thesis by (simp add: fresh_from_def ball_Un)
qed

lemma fresh_skip:
  assumes "fresh_from (Suc n) g" and "fresh_from (snd g) r"
  shows "fresh_from n r"
proof -
  from assms(1) have l1: "Suc n \<le> snd g" by (simp add: fresh_from_def)
  from assms(2) have b2: "\<forall>i \<in> set (all_oids (fst r)). snd g \<le> i \<and> i < snd r"
    and d2: "distinct (all_oids (fst r))" and l2: "snd g \<le> snd r"
    by (simp_all add: fresh_from_def)
  from b2 l1 have "\<forall>i \<in> set (all_oids (fst r)). n \<le> i \<and> i < snd r" by force
  with d2 l1 l2 show ?thesis by (simp add: fresh_from_def)
qed

lemma fresh_gen: "fresh_from n (generateTreeViewState lower tree fs par n)"
  and fresh_loop: "fresh_from n (tree_loop lower ts flt par n)"
proof (induction lower tree fs par n and lower ts flt par n
    rule: generateTreeViewState_tree_loop.induct)
  case (1 lower filterString par n)
  then show ?case by (simp add: fresh_from_def)
next
  case (2 lower tree filterString par n)
  then show ?case by simp
next
  case (3 lower flt par n)
  then show ?case by (simp add: fresh_from_def)
next
  case (4 lower it rest flt par n)
  let ?c = "length flt = 0 \<or> str_includes (lower (displayName it)) flt"
  show ?case
  proof (cases ?c)
    case True
    have "tree_loop lower (DropdownItem it None # rest) flt par n
            = (ChannelPickerItemState n it None None par # fst (tree_loop lower rest flt par (Suc n)),
               snd (tree_loop lower rest flt par (Suc n)))"
      using True by (simp add: split_beta)
    with fresh_leaf [OF "4.IH"(1) [OF True]] show ?thesis by simp
  next
    case False
    with "4.IH"(2) [OF False] show ?thesis by simp
  qed
next
  case (5 lower it chs rest flt par n)
  let ?c = "length flt = 0 \<or> str_includes (lower (displayName it)) flt"
  show ?case
  proof (cases ?c)
    case True
    let ?g = "generateTreeViewState lower (Some chs) [] (Some (ParentRef n it)) (Suc n)"
    have a: "fresh_from (Suc n) ?g" using "5.IH"(1) [OF True] .
    have b: "fresh_from (snd ?g) (tree_loop lower rest flt par (snd ?g))"
      using "5.IH"(2) [OF True refl prod.collapse] .
    have "tree_loop lower (DropdownItem it (Some chs) # rest) flt par n
            = (ChannelPickerItemState n it (Some (length flt > 0)) (Some (fst ?g)) par
                 # fst (tree_loop lower rest flt par (snd ?g)),
               snd (tree_loop lower rest flt par (snd ?g)))"
      using True by (simp add: split_beta)
    with fresh_team [OF a b] show ?thesis by simp
  next
    case False
    let ?g = "generateTreeViewState lower (Some chs) flt (Some (ParentRef n it)) (Suc n)"
    have a: "fresh_from (Suc n) ?g" using "5.IH"(3) [OF False] .
    have b: "fresh_from (snd ?g) (tree_loop lower rest flt par (snd ?g))"
      using "5.IH"(4) [OF False refl prod.collapse] .
    have "tree_loop lower (DropdownItem it (Some chs) # rest) flt par n
            = (if length (fst ?g) > 0
               then (ChannelPickerItemState n it (Some True) (Some (fst ?g)) par
                       # fst (tree_loop lower rest flt par (snd ?g)),
                     snd (tree_loop lower rest flt par (snd ?g)))
               else tree_loop lower rest flt par (snd ?g))"
      using False by (simp add: split_beta)
    with fresh_team [OF a b] fresh_skip [OF a b] show ?thesis by simp
  qed
qed

section \<open>Selecting a channel by its id\<close>

text \<open>
  Claim C1 says that \<^verbatim>\<open>selectChannelById\<close> finds every channel of the loaded source
  tree, whatever the filter. The loops run over \<^verbatim>\<open>_treeViewState\<close>, the filtered tree
  view: with the example loaded and the text \<open>back\<close> typed, the channel \<open>C1\<close> is in the
  source tree, and would be found in the tree view built without a filter, but the call
  returns \<^verbatim>\<open>false\<close> and leaves the state as it was.
\<close>

theorem selectChannelById_misses_filtered_channel:
  "items (typed ''back'' loaded) = Some engineering
   \<and> item_loop (ustr ''C1'') (fst (generateTreeViewState lower_sample (Some engineering) [] None 0))
       = Inr (Some (ChannelPickerItemState 1 (Item (ustr ''C1'') (ustr ''General'')) None None
                      (Some (ParentRef 0 (Item (ustr ''T1'') (ustr ''Engineering''))))))
   \<and> selectChannelById lower_sample (ustr ''C1'') True engineering_fetched (typed ''back'' loaded)
       = Inr (False, typed ''back'' loaded)"
  by code_simp

text \<open>
  Claim C2 says that \<^verbatim>\<open>selectChannelById\<close> returns a boolean also when a top-level
  team has no channels list. For a signed-in user whose only team came back without
  channels, the load builds a tree view whose team has no channels list, and the call,
  on the new component (where it forces the load) as well as after the load, ends in a
  TypeError at \<^verbatim>\<open>for (const channel of item.channels)\<close>.
\<close>

theorem selectChannelById_throws_without_channels:
  "treeViewState (loadState lower_sample True marketing_fetched initial)
     = [ChannelPickerItemState 1 (Item (ustr ''T2'') (ustr ''Marketing'')) None None None]
   \<and> selectChannelById lower_sample (ustr ''C1'') True marketing_fetched initial
       = Inl (TypeError, loadState lower_sample True marketing_fetched initial)
   \<and> selectChannelById lower_sample (ustr ''C1'') True marketing_fetched
        (loadState lower_sample True marketing_fetched initial)
       = Inl (TypeError, loadState lower_sample True marketing_fetched initial)"
  by code_simp

section \<open>The Down key\<close>

text \<open>
  Claim C3 says that the first Down press, at focus index \<open>-1\<close>, leaves the index at
  \<open>-1\<close>. With three entries in the focus list and the index at \<open>-1\<close>, the key moves
  the browser focus to the tree and sets the index to \<open>0\<close>.
\<close>

theorem first_down_advances_counterexample:
  "length (focusList (typed ''e'' loaded)) = 3
   \<and> focusedIndex (typed ''e'' loaded) = -1
   \<and> onUserKeyDown lower_sample 40 (typed ''e'' loaded)
       = Inr ((typed ''e'' loaded)\<lparr>domFocus := FocusTreeItem, focusedIndex := 0\<rparr>)"
  by code_simp

text \<open>
  Claim C3, amended. For every state with a tree view and a focus list that are not
  empty: a Down press at focus index \<open>-1\<close>, the first tree item being in the render
  root, moves the browser focus to the tree and sets the index to \<open>0\<close>; a Down press at
  an index from \<open>0\<close> to the last but one adds one to it and does nothing else; a Down
  press at the last index changes nothing (no wraparound).
\<close>

theorem down_key:
  assumes "treeViewState s \<noteq> []" and "focusList s \<noteq> []"
  shows "(focusedIndex s = -1 \<and> treeItemPresent s \<longrightarrow>
            onUserKeyDown lower 40 s = Inr (s\<lparr>domFocus := FocusTreeItem, focusedIndex := 0\<rparr>))
         \<and> (0 \<le> focusedIndex s \<and> focusedIndex s < int (length (focusList s)) - 1 \<longrightarrow>
            onUserKeyDown lower 40 s = Inr (s\<lparr>focusedIndex := focusedIndex s + 1\<rparr>))
         \<and> (focusedIndex s = int (length (focusList s)) - 1 \<longrightarrow>
            onUserKeyDown lower 40 s = Inr s)"
proof -
  from assms(2) have len: "0 < length (focusList s)" by simp
  have first: "focusedIndex s = -1 \<and> treeItemPresent s \<longrightarrow>
      onUserKeyDown lower 40 s = Inr (s\<lparr>domFocus := FocusTreeItem, focusedIndex := 0\<rparr>)"
    using assms(1) len by (simp add: onUserKeyDown_def Let_def)
  have mid: "0 \<le> focusedIndex s \<and> focusedIndex s < int (length (focusList s)) - 1 \<longrightarrow>
      onUserKeyDown lower 40 s = Inr (s\<lparr>focusedIndex := focusedIndex s + 1\<rparr>)"
    using assms(1) by (auto simp: onUserKeyDown_def Let_def)
  have last: "focusedIndex s = int (length (focusList s)) - 1 \<longrightarrow> onUserKeyDown lower 40 s = Inr s"
    using assms(1) len by (auto simp: onUserKeyDown_def Let_def)
  from first mid last show ?thesis by blast
qed

theorem down_key_witness:
  "treeViewState (typed ''e'' loaded) \<noteq> []
   \<and> focusList (typed ''e'' loaded) \<noteq> []
   \<and> focusedIndex (typed ''e'' loaded) = -1
   \<and> treeItemPresent (typed ''e'' loaded)
   \<and> onUserKeyDown lower_sample 40 (typed ''e'' loaded)
       = Inr ((typed ''e'' loaded)\<lparr>domFocus := FocusTreeItem, focusedIndex := 0\<rparr>)"
proof -
  have h1: "treeViewState (typed ''e'' loaded) \<noteq> []" by code_simp
  have h2: "focusList (typed ''e'' loaded) \<noteq> []" by code_simp
  have h3: "focusedIndex (typed ''e'' loaded) = -1" by code_simp
  have h4: "treeItemPresent (typed ''e'' loaded)" by code_simp
  from down_key [OF h1 h2, of lower_sample] h3 h4 h1 h2 show ?thesis by blast
qed

section \<open>Selecting\<close>

lemma lostFocus_ok:
  assumes "has_team (selectedItemState s)"
  shows "lostFocus lower s =
     Inr (filterList lower (s\<lparr>isFocused := False,
            inputValue :=
              (if inputPresent s \<and> \<not> truthy (selectedItemState s) then [] else inputValue s),
            isDropdownVisible := False\<rparr>))"
  using assms
  by (auto simp: lostFocus_def has_team_def truthy_def selectedItem_def selected_pair_def Let_def
      split: option.splits sum.splits Selection.splits)

lemma filterList_fields:
  "selectionChanged (filterList lower s) = selectionChanged s"
  "selectedItemState (filterList lower s) = selectedItemState s"
  "inputValue (filterList lower s) = inputValue s"
  "isDropdownVisible (filterList lower s) = isDropdownVisible s"
  "isFocused (filterList lower s) = isFocused s"
  by (simp_all add: filterList_def resetFocusState_def split_beta split: option.splits)

lemma filterList_loaded:
  assumes "items s = Some T"
  shows "treeViewState (filterList lower s)
           = fst (generateTreeViewState lower (Some T) (inputValue s) None (nextOid s))"
    and "focusList (filterList lower s) = generateFocusList (treeViewState (filterList lower s))"
    and "focusedIndex (filterList lower s) = -1"
  using assms by (simp_all add: filterList_def resetFocusState_def split_beta)

lemma strict_equal_refl: "strict_equal v v"
  by (cases v) simp_all

lemma selectChannel_same:
  assumes "strict_equal (selectedItemState s) itm" and "has_team (selectedItemState s)"
  shows "selectChannel lower itm s =
     Inr (filterList lower (s\<lparr>isFocused := False,
            inputValue := (if inputPresent s then [] else inputValue s),
            isDropdownVisible := False\<rparr>))"
  using assms by (simp add: selectChannel_def lostFocus_ok)

lemma selectChannel_node:
  assumes "\<not> strict_equal (selectedItemState s) (Node n)" and "parent n = Some p"
  shows "selectChannel lower (Node n) s =
     Inr (filterList lower (s\<lparr>selectedItemState := Node n,
            selectionChanged := selectionChanged s @ [[\<lparr>channel = st_item n, team = p_item p\<rparr>]],
            isFocused := False,
            inputValue := (if inputPresent s then [] else inputValue s),
            isDropdownVisible := False\<rparr>))"
  using assms
  by (simp add: selectChannel_def fire_selection_def selected_pair_def lostFocus_ok has_team_def)

lemma selectChannel_clear:
  assumes "\<not> strict_equal (selectedItemState s) Null"
  shows "selectChannel lower Null s =
     Inr (filterList lower (s\<lparr>selectedItemState := Null,
            selectionChanged := selectionChanged s @ [[]],
            isFocused := False,
            inputValue := (if inputPresent s then [] else inputValue s),
            isDropdownVisible := False\<rparr>))"
  using assms
  by (simp add: selectChannel_def fire_selection_def lostFocus_ok has_team_def)

lemma truthy_not_Null: "truthy v \<Longrightarrow> \<not> strict_equal v Null"
  by (cases v) (simp_all add: truthy_def)

lemma escape_key:
  assumes "has_team (selectedItemState s)"
  shows "\<exists>s'. onUserKeyDown lower 27 s = Inr s' \<and> selectionChanged s' = selectionChanged s"
proof (cases "treeViewState s = []")
  case True
  then show ?thesis by (simp add: onUserKeyDown_def)
next
  case False
  from selectChannel_same [OF strict_equal_refl assms, of lower] False show ?thesis
    by (simp add: onUserKeyDown_def Let_def resetFocusState_def filterList_fields)
qed

lemma lostFocus_events:
  "selectionChanged (state_after (lostFocus lower s)) = selectionChanged s"
  by (simp add: lostFocus_def state_after_def Let_def filterList_fields
      split: sum.splits option.splits)

lemma selectChannel_same_events:
  assumes "strict_equal (selectedItemState s) itm"
  shows "selectionChanged (state_after (selectChannel lower itm s)) = selectionChanged s"
  using assms by (simp add: selectChannel_def lostFocus_events)

lemma escape_key_events:
  "selectionChanged (state_after (onUserKeyDown lower 27 s)) = selectionChanged s"
proof (cases "treeViewState s = []")
  case True
  then show ?thesis by (simp add: onUserKeyDown_def state_after_def)
next
  case False
  note same = strict_equal_refl [of "selectedItemState s"]
  show ?thesis
  proof (cases "selectChannel lower (selectedItemState s) s")
    case (Inl failed)
    with False selectChannel_same_events [OF same, of lower] show ?thesis
      by (simp add: onUserKeyDown_def Let_def)
  next
    case (Inr s1)
    with False selectChannel_same_events [OF same, of lower] show ?thesis
      by (simp add: onUserKeyDown_def Let_def state_after_def resetFocusState_def)
  qed
qed

text \<open>
  Claim C9 says that selecting \<^verbatim>\<open>null\<close> when nothing is selected fires no event. On
  the loaded component, where nothing was ever selected, the field is still
  \<^verbatim>\<open>undefined\<close>, which \<^verbatim>\<open>!==\<close> tells from \<^verbatim>\<open>null\<close>: the call fires one event
  with the empty array.
\<close>

theorem select_null_on_unset_counterexample:
  "selectedItemState loaded = Unset
   \<and> selectionChanged loaded = []
   \<and> selectionChanged (state_after (selectChannel lower_sample Null loaded)) = [[]]"
  by code_simp

text \<open>
  Claim C9, amended. In every state, \<^verbatim>\<open>selectChannel\<close> called with a value strictly
  equal to the one the selection holds (the selected node object itself, \<^verbatim>\<open>null\<close> when
  the field holds \<^verbatim>\<open>null\<close>, \<^verbatim>\<open>undefined\<close> when it was never written) fires no
  \<^verbatim>\<open>selectionChanged\<close> event, and neither does the Escape key, which passes the field's
  own value; both return normally when the selection, if any, is a channel of a team.
  Called with another node that is a channel of a team, \<^verbatim>\<open>selectChannel\<close> fires one
  event whose detail is the array of the single pair of that channel and its team.
  Called with \<^verbatim>\<open>null\<close> when a node is selected, it fires one event whose detail is the
  empty array.
\<close>

theorem selection_notifications:
  "(strict_equal (selectedItemState s) itm \<longrightarrow>
      selectionChanged (state_after (selectChannel lower itm s)) = selectionChanged s
      \<and> (has_team (selectedItemState s) \<longrightarrow> (\<exists>s'. selectChannel lower itm s = Inr s')))
   \<and> selectionChanged (state_after (onUserKeyDown lower 27 s)) = selectionChanged s
   \<and> (has_team (selectedItemState s) \<longrightarrow> (\<exists>s'. onUserKeyDown lower 27 s = Inr s'))
   \<and> (\<not> strict_equal (selectedItemState s) (Node n) \<and> parent n = Some p \<longrightarrow>
      (\<exists>s'. selectChannel lower (Node n) s = Inr s'
         \<and> selectionChanged s'
             = selectionChanged s @ [[\<lparr>channel = st_item n, team = p_item p\<rparr>]]))
   \<and> (truthy (selectedItemState s) \<longrightarrow>
      (\<exists>s'. selectChannel lower Null s = Inr s'
         \<and> selectionChanged s' = selectionChanged s @ [[]]))"
proof (intro conjI impI)
  assume "strict_equal (selectedItemState s) itm"
  then show "selectionChanged (state_after (selectChannel lower itm s)) = selectionChanged s"
    by (rule selectChannel_same_events)
next
  assume "strict_equal (selectedItemState s) itm" and "has_team (selectedItemState s)"
  then show "\<exists>s'. selectChannel lower itm s = Inr s'"
    by (simp add: selectChannel_same)
next
  show "selectionChanged (state_after (onUserKeyDown lower 27 s)) = selectionChanged s"
    by (rule escape_key_events)
next
  assume "has_team (selectedItemState s)"
  then show "\<exists>s'. onUserKeyDown lower 27 s = Inr s'"
    using escape_key by blast
next
  assume "\<not> strict_equal (selectedItemState s) (Node n) \<and> parent n = Some p"
  then show "\<exists>s'. selectChannel lower (Node n) s = Inr s'
         \<and> selectionChanged s'
             = selectionChanged s @ [[\<lparr>channel = st_item n, team = p_item p\<rparr>]]"
    by (simp add: selectChannel_node filterList_fields)
next
  assume "truthy (selectedItemState s)"
  then have "\<not> strict_equal (selectedItemState s) Null" by (rule truthy_not_Null)
  then show "\<exists>s'. selectChannel lower Null s = Inr s'
      \<and> selectionChanged s' = selectionChanged s @ [[]]"
    by (simp add: selectChannel_clear filterList_fields)
qed

theorem selection_notifications_witness:
  "strict_equal (selectedItemState backend_selected) (selectedItemState backend_selected)
   \<and> has_team (selectedItemState backend_selected)
   \<and> \<not> strict_equal (selectedItemState backend_selected) (Node general_node)
   \<and> parent general_node = Some (ParentRef 6 (Item (ustr ''T1'') (ustr ''Engineering'')))
   \<and> truthy (selectedItemState backend_selected)
   \<and> selectionChanged
        (state_after (selectChannel lower_sample (selectedItemState backend_selected)
           backend_selected))
       = selectionChanged backend_selected
   \<and> (\<exists>s'. selectChannel lower_sample (selectedItemState backend_selected) backend_selected
          = Inr s')
   \<and> selectionChanged (state_after (onUserKeyDown lower_sample 27 backend_selected))
       = selectionChanged backend_selected
   \<and> (\<exists>s'. onUserKeyDown lower_sample 27 backend_selected = Inr s')
   \<and> (\<exists>s'. selectChannel lower_sample (Node general_node) backend_selected = Inr s'
          \<and> selectionChanged s'
              = selectionChanged backend_selected
                  @ [[\<lparr>channel = st_item general_node,
                       team = p_item (ParentRef 6 (Item (ustr ''T1'') (ustr ''Engineering'')))\<rparr>]])
   \<and> (\<exists>s'. selectChannel lower_sample Null backend_selected = Inr s'
          \<and> selectionChanged s' = selectionChanged backend_selected @ [[]])"
proof -
  have h1: "strict_equal (selectedItemState backend_selected) (selectedItemState backend_selected)"
    by (rule strict_equal_refl)
  have h2: "has_team (selectedItemState backend_selected)" by code_simp
  have h3: "\<not> strict_equal (selectedItemState backend_selected) (Node general_node)"
    by code_simp
  have h4: "parent general_node = Some (ParentRef 6 (Item (ustr ''T1'') (ustr ''Engineering'')))"
    by code_simp
  have h5: "truthy (selectedItemState backend_selected)" by code_simp
  from selection_notifications [of backend_selected "selectedItemState backend_selected"
      lower_sample general_node "ParentRef 6 (Item (ustr ''T1'') (ustr ''Engineering''))"]
    h1 h2 h3 h4 h5
  show ?thesis by blast
qed

text \<open>
  Claim C10. In a state where the text field is in the render root, a source tree is
  loaded and the selection, if any, is a channel of a team, \<^verbatim>\<open>selectChannel\<close> called
  with the value the selection already holds (the selected node itself) still changes
  the state: the typed text becomes empty, the dropdown is hidden, the focus is given up,
  and the tree view is built anew from the source tree with the empty filter (with the
  focus list that belongs to it, and the focus index \<open>-1\<close>). The selection stays and no
  event is fired.
\<close>

theorem reselect_still_resets:
  assumes "strict_equal (selectedItemState s) itm"
    and "has_team (selectedItemState s)"
    and "inputPresent s"
    and "items s = Some T"
  shows "\<exists>s'. selectChannel lower itm s = Inr s'
           \<and> inputValue s' = []
           \<and> \<not> isDropdownVisible s'
           \<and> \<not> isFocused s'
           \<and> treeViewState s' = fst (generateTreeViewState lower (Some T) [] None (nextOid s))
           \<and> focusList s' = generateFocusList (treeViewState s')
           \<and> focusedIndex s' = -1
           \<and> selectedItemState s' = selectedItemState s
           \<and> selectionChanged s' = selectionChanged s"
proof -
  let ?s1 = "s\<lparr>isFocused := False, inputValue := [], isDropdownVisible := False\<rparr>"
  have r: "selectChannel lower itm s = Inr (filterList lower ?s1)"
    using selectChannel_same [OF assms(1,2)] assms(3) by simp
  have i: "items ?s1 = Some T" using assms(4) by simp
  show ?thesis
    using r filterList_loaded [OF i, of lower] by (simp add: filterList_fields)
qed

theorem reselect_still_resets_witness:
  "truthy (selectedItemState backend_selected_open)
   \<and> strict_equal (selectedItemState backend_selected_open)
        (selectedItemState backend_selected_open)
   \<and> has_team (selectedItemState backend_selected_open)
   \<and> inputPresent backend_selected_open
   \<and> items backend_selected_open = Some engineering
   \<and> isDropdownVisible backend_selected_open
   \<and> isFocused backend_selected_open
   \<and> (\<exists>s'. selectChannel lower_sample (selectedItemState backend_selected_open)
            backend_selected_open = Inr s'
          \<and> inputValue s' = []
          \<and> \<not> isDropdownVisible s'
          \<and> \<not> isFocused s'
          \<and> treeViewState s'
              = fst (generateTreeViewState lower_sample (Some engineering) [] None
                       (nextOid backend_selected_open))
          \<and> focusList s' = generateFocusList (treeViewState s')
          \<and> focusedIndex s' = -1
          \<and> selectedItemState s' = selectedItemState backend_selected_open
          \<and> selectionChanged s' = selectionChanged backend_selected_open)"
proof -
  have h0: "truthy (selectedItemState backend_selected_open)" by code_simp
  have h1: "strict_equal (selectedItemState backend_selected_open)
        (selectedItemState backend_selected_open)"
    by (rule strict_equal_refl)
  have h2: "has_team (selectedItemState backend_selected_open)" by code_simp
  have h3: "inputPresent backend_selected_open" by code_simp
  have h4: "items backend_selected_open = Some engineering" by code_simp
  have h5: "isDropdownVisible backend_selected_open" by code_simp
  have h6: "isFocused backend_selected_open" by code_simp
  from reselect_still_resets [OF h1 h2 h3 h4, of lower_sample] h0 h1 h2 h3 h4 h5 h6
  show ?thesis by blast
qed

section \<open>Filters made of white space\<close>

lemma nonempty_filter_top_level:
  assumes "lower flt = flt" and "flt \<noteq> []"
  shows "\<forall>x \<in> set (fst (tree_loop lower ts flt par n)).
           (case st_channels x of
              None \<Rightarrow> isExpanded x = None \<and> contains_ci lower flt (displayName (st_item x))
            | Some cs \<Rightarrow> isExpanded x = Some True
                \<and> (contains_ci lower flt (displayName (st_item x)) \<or> cs \<noteq> []))"
proof (induction ts arbitrary: n)
  case Nil
  then show ?case by simp
next
  case (Cons t ts)
  obtain it chs where t: "t = DropdownItem it chs" by (cases t)
  note cond = loop_condition_contains [of lower flt it, OF assms(1)]
  show ?case
  proof (cases chs)
    case None
    with t cond assms(2) Cons.IH show ?thesis
      by (auto simp: split_beta)
  next
    case (Some cs)
    with t cond assms(2) Cons.IH show ?thesis
      by (auto simp: split_beta)
  qed
qed

text \<open>
  Claim C6, amended. The filter is not trimmed: only the filter of length zero shows
  everything (claim C5). For every source tree and every filter that is not empty and
  consists of white space only, the filter is matched as it stands: every top-level node
  of the tree view that has no channels list has a name in which the filter occurs
  literally; every top-level node that has a channels list is expanded, and the filter
  occurs literally in its name or at least one of its channels was kept.
\<close>

theorem whitespace_filter_is_literal:
  assumes "whitespace_only f" and "f \<noteq> []"
  shows "\<forall>n \<in> set (fst (generateTreeViewState (toLowerCase L) (Some T) f None k)).
           kept_literally f n"
proof
  fix n assume n: "n \<in> set (fst (generateTreeViewState (toLowerCase L) (Some T) f None k))"
  have low: "toLowerCase L f = f" using assms(1) by (rule toLowerCase_whitespace)
  from n low have "n \<in> set (fst (tree_loop (toLowerCase L) T f None k))" by simp
  with nonempty_filter_top_level [of "toLowerCase L" f T None k, OF low assms(2)]
  have "case st_channels n of
          None \<Rightarrow> isExpanded n = None
            \<and> contains_ci (toLowerCase L) f (displayName (st_item n))
        | Some cs \<Rightarrow> isExpanded n = Some True
            \<and> (contains_ci (toLowerCase L) f (displayName (st_item n)) \<or> cs \<noteq> [])"
    by blast
  moreover have "contains_ci (toLowerCase L) f name \<Longrightarrow> sublist f name" for name
    using toLowerCase_whitespace_sublist [OF assms, of L name] low
    by (simp add: contains_ci_def)
  ultimately show "kept_literally f n"
    by (auto simp: kept_literally_def split: option.splits)
qed

theorem whitespace_filter_is_literal_witness:
  "whitespace_only (ustr '' '') \<and> ustr '' '' \<noteq> []
   \<and> ChannelPickerItemState 0 (Item (ustr ''T3'') (ustr ''Site Ops'')) (Some True)
        (Some [ChannelPickerItemState 1 (Item (ustr ''C3'') (ustr ''General'')) None None
                 (Some (ParentRef 0 (Item (ustr ''T3'') (ustr ''Site Ops''))))]) None
       \<in> set (fst (generateTreeViewState lower_sample (Some site_ops) (ustr '' '') None 0))
   \<and> kept_literally (ustr '' '')
        (ChannelPickerItemState 0 (Item (ustr ''T3'') (ustr ''Site Ops'')) (Some True)
           (Some [ChannelPickerItemState 1 (Item (ustr ''C3'') (ustr ''General'')) None None
                    (Some (ParentRef 0 (Item (ustr ''T3'') (ustr ''Site Ops''))))]) None)"
proof -
  have h1: "whitespace_only (ustr '' '')" by code_simp
  have h2: "ustr '' '' \<noteq> []" by code_simp
  have m: "ChannelPickerItemState 0 (Item (ustr ''T3'') (ustr ''Site Ops'')) (Some True)
        (Some [ChannelPickerItemState 1 (Item (ustr ''C3'') (ustr ''General'')) None None
                 (Some (ParentRef 0 (Item (ustr ''T3'') (ustr ''Site Ops''))))]) None
       \<in> set (fst (generateTreeViewState lower_sample (Some site_ops) (ustr '' '') None 0))"
    by code_simp
  from bspec [OF whitespace_filter_is_literal [OF h1 h2, of sample site_ops 0,
        unfolded toLowerCase_sample] m] h1 h2 m
  show ?thesis by blast
qed

text \<open>
  Claim C6 says that a filter of white space only gives the tree view of the empty
  filter. For the example and the filter of one blank the tree view is empty, while the
  empty filter gives a tree view that is not.
\<close>

theorem whitespace_filter_counterexample:
  "whitespace_only (ustr '' '')
   \<and> fst (generateTreeViewState lower_sample (Some engineering) (ustr '' '') None 0) = []
   \<and> fst (generateTreeViewState lower_sample (Some engineering) [] None 0) \<noteq> []"
  by code_simp

end
